theory Spec2Isabelle
  imports Main "HOL-Library.Multiset" "HOL-Library.Sublist"
begin

section \<open>Section keys\<close>

text \<open>
  \<^verbatim>\<open>SectionSelectorPage.tsx\<close> correlates a \<^verbatim>\<open>SectionInfo\<close> entry with a metadata or
  selections key through
  \<^verbatim>\<open>s.title.toLowerCase().replace(/[^a-z0-9]+/g, '_').replace(/^_|_$/g, '')\<close>
  (in \<^verbatim>\<open>getSubsectionTitles\<close> and twice in the section sort comparator).

  Strings are lists of \<^typ>\<open>char\<close>: the bytes of the text in UTF-8. The key itself only
  ever contains \<^verbatim>\<open>a-z\<close>, \<^verbatim>\<open>0-9\<close> and \<^verbatim>\<open>_\<close>; a character outside ASCII is a run of
  bytes outside the class, as it is a run of UTF-16 units outside the class in
  JavaScript, and either run becomes one underscore.
\<close>

definition charCode :: "char \<Rightarrow> nat" where
  "charCode c = of_char c"

text \<open>The character class \<^verbatim>\<open>[a-z0-9]\<close>.\<close>

definition in_class :: "char \<Rightarrow> bool" where
  "in_class c =
     ((97 \<le> charCode c \<and> charCode c \<le> 122) \<or> (48 \<le> charCode c \<and> charCode c \<le> 57))"

definition lower_char :: "char \<Rightarrow> char" where
  "lower_char c =
     (if 65 \<le> charCode c \<and> charCode c \<le> 90 then char_of (charCode c + 32) else c)"

text \<open>
  \<^verbatim>\<open>String.prototype.toLowerCase\<close>. Three kinds of characters have a lowercase form that
  contains an ASCII character: the letters \<^verbatim>\<open>A-Z\<close>; U+0130 (capital I with dot above,
  bytes \<^verbatim>\<open>C4 B0\<close>), whose lowercase form is \<^verbatim>\<open>i\<close> followed by U+0307 (bytes \<^verbatim>\<open>CC 87\<close>); and
  U+212A (the Kelvin sign, bytes \<^verbatim>\<open>E2 84 AA\<close>), whose lowercase form is \<^verbatim>\<open>k\<close>. They are
  lowercased as JavaScript does. Any other character outside ASCII is left as it is,
  where JavaScript may put another character outside ASCII in its place; neither is in
  the class \<^verbatim>\<open>[a-z0-9]\<close>.
\<close>

function toLowerCase :: "string \<Rightarrow> string" where
  "toLowerCase [] = []"
| "toLowerCase (c # cs) =
     (if c = CHR 0xC4 \<and> take 1 cs = [CHR 0xB0]
        then CHR ''i'' # CHR 0xCC # CHR 0x87 # toLowerCase (drop 1 cs)
      else if c = CHR 0xE2 \<and> take 2 cs = [CHR 0x84, CHR 0xAA]
        then CHR ''k'' # toLowerCase (drop 2 cs)
      else lower_char c # toLowerCase cs)"
  by pat_completeness auto
termination
  by (relation "measure length") auto

text \<open>
  \<^verbatim>\<open>.replace(/[^a-z0-9]+/g, '_')\<close>: scanning from the left, a character of the class is
  copied; at a character outside it the greedy \<^verbatim>\<open>+\<close> consumes the whole run, one
  underscore is written, and the scan resumes behind the run.
\<close>

function replace_runs :: "string \<Rightarrow> string" where
  "replace_runs [] = []"
| "replace_runs (c # cs) =
     (if in_class c then c # replace_runs cs
      else CHR ''_'' # replace_runs (dropWhile (\<lambda>d. \<not> in_class d) cs))"
  by pat_completeness auto
termination
  by (relation "measure length") (auto simp: le_imp_less_Suc length_dropWhile_le)

text \<open>
  \<^verbatim>\<open>.replace(/^_|_$/g, '')\<close>: the first alternative matches an underscore at position 0
  only, the second an underscore that is the last character; matches do not overlap, so
  first the leading underscore goes, then, in what is left, the trailing one.
\<close>

definition strip_edges :: "string \<Rightarrow> string" where
  "strip_edges s =
     (let s1 = (case s of [] \<Rightarrow> [] | c # cs \<Rightarrow> if c = CHR ''_'' then cs else s)
      in if s1 \<noteq> [] \<and> last s1 = CHR ''_'' then butlast s1 else s1)"

definition normalizedTitle :: "string \<Rightarrow> string" where
  "normalizedTitle t = strip_edges (replace_runs (toLowerCase t))"

subsection \<open>The key as the specification words it\<close>

text \<open>
  The specification: the key is the lowercased title with every maximal run of characters
  outside \<^verbatim>\<open>[a-z0-9]\<close> replaced by a single underscore, and any leading or trailing
  underscore removed.

  Lowercasing, by table: each capital letter has its small letter, and the two characters
  outside ASCII whose lowercase form reaches into ASCII have theirs.
\<close>

definition lowercase_letters :: "(char \<times> char) list" where
  "lowercase_letters = zip ''ABCDEFGHIJKLMNOPQRSTUVWXYZ'' ''abcdefghijklmnopqrstuvwxyz''"

definition lowercase_special :: "(string \<times> string) list" where
  "lowercase_special =
     [([CHR 0xC4, CHR 0xB0], [CHR ''i'', CHR 0xCC, CHR 0x87]),
      ([CHR 0xE2, CHR 0x84, CHR 0xAA], ''k'')]"

function spec_lowercase :: "string \<Rightarrow> string" where
  "spec_lowercase [] = []"
| "spec_lowercase (c # cs) =
     (case find (\<lambda>(u, l). prefix u (c # cs)) lowercase_special of
        Some (u, l) \<Rightarrow> l @ spec_lowercase (drop (length u - 1) cs)
      | None \<Rightarrow>
          (case map_of lowercase_letters c of Some l \<Rightarrow> l | None \<Rightarrow> c)
            # spec_lowercase cs)"
  by pat_completeness auto
termination
  by (relation "measure length") auto

text \<open>
  \<open>runs\<close> cuts a string into its maximal runs of characters that are all inside or all
  outside the class.
\<close>

function runs :: "string \<Rightarrow> string list" where
  "runs [] = []"
| "runs (c # cs) =
     (c # takeWhile (\<lambda>d. in_class d = in_class c) cs)
       # runs (dropWhile (\<lambda>d. in_class d = in_class c) cs)"
  by pat_completeness auto
termination
  by (relation "measure length") (auto simp: le_imp_less_Suc length_dropWhile_le)

definition spec_collapse :: "string \<Rightarrow> string" where
  "spec_collapse s = concat (map (\<lambda>r. if in_class (hd r) then r else ''_'') (runs s))"

definition spec_trim :: "string \<Rightarrow> string" where
  "spec_trim s =
     rev (dropWhile (\<lambda>c. c = CHR ''_'') (rev (dropWhile (\<lambda>c. c = CHR ''_'') s)))"

definition spec_section_key :: "string \<Rightarrow> string" where
  "spec_section_key t = spec_trim (spec_collapse (spec_lowercase t))"

text \<open>
  Titles for the examples: \<^verbatim>\<open>Istanbul\<close> written with U+0130 for its first letter, and
  \<^verbatim>\<open>Kelvin\<close> written with U+212A for its first letter.
\<close>

definition example_title_istanbul :: string where
  "example_title_istanbul = [CHR 0xC4, CHR 0xB0] @ ''stanbul''"

definition example_title_kelvin :: string where
  "example_title_kelvin = [CHR 0xE2, CHR 0x84, CHR 0xAA] @ ''elvin''"

text \<open>No two underscores stand side by side.\<close>

fun sep :: "string \<Rightarrow> bool" where
  "sep (a # b # cs) = ((a = CHR ''_'' \<longrightarrow> b \<noteq> CHR ''_'') \<and> sep (b # cs))"
| "sep _ = True"

section \<open>Data model of the section selector page\<close>

text \<open>
  The interfaces of \<^verbatim>\<open>SectionSelectorPage.tsx\<close>. A JSON object read in enumeration order
  (\<^verbatim>\<open>Object.entries(metadata)\<close>) is an association list; a JavaScript object has each key
  once. The selections object is only read and written by key, and is a map.
  \<^verbatim>\<open>SectionData\<close> carries the fields of the TypeScript interface and, for the assembler of
  the specification (section 4.4), the wrapper markup and the section-level closing markup
  that the specification lets it emit.
\<close>

datatype section_type = SimpleSection | ComplexSection

record SectionMetadata =
  meta_type :: section_type
  label :: string
  item_count :: "nat option"

record SectionInfo =
  title :: string
  subsections :: "string list"

datatype selection = Simple bool | Complex bool "nat list"

type_synonym Selections = "string \<rightharpoonup> selection"

record SectionData =
  full_content :: string
  section_header :: string
  has_items :: bool
  block_title :: string
  items :: "(nat \<times> string) list"
  wrapper :: "(string \<times> string) option"
  section_closing :: string

record LatexBlocks =
  preamble :: string
  sections :: "(string \<times> SectionData) list"
  closing :: string

record ParsedData =
  format_id :: string
  latex_blocks :: LatexBlocks
  section_info :: "SectionInfo list"
  original_latex :: string

text \<open>
  The part of the component's \<^verbatim>\<open>useState\<close> state that the handlers below read or write.
\<close>

record page_state =
  parsedData :: "ParsedData option"
  metadata :: "(string \<times> SectionMetadata) list"
  selections :: Selections
  error :: "string option"

definition initial_page :: page_state where
  "initial_page = \<lparr>parsedData = None, metadata = [], selections = Map.empty, error = None\<rparr>"

definition getSubsectionTitles :: "page_state \<Rightarrow> string \<Rightarrow> string list" where
  "getSubsectionTitles st sectionKey =
     (case parsedData st of
        None \<Rightarrow> []
      | Some pd \<Rightarrow>
          (case find (\<lambda>s. normalizedTitle (title s) = sectionKey) (section_info pd) of
             None \<Rightarrow> []
           | Some s \<Rightarrow> subsections s))"

section \<open>Initial selections\<close>

text \<open>
  \<^verbatim>\<open>Array.from({ length: sectionMeta.item_count || 0 }, (_, i) => i)\<close>: an absent count
  and the count 0 both give the empty list.
\<close>

definition item_indices :: "nat option \<Rightarrow> nat list" where
  "item_indices cnt = [0 ..< (case cnt of None \<Rightarrow> 0 | Some n \<Rightarrow> n)]"

text \<open>
  One turn of the loop \<^verbatim>\<open>for (const [key, meta] of Object.entries(result.data!.metadata))\<close>
  of \<^verbatim>\<open>parseLatexSections\<close>: the header is skipped by \<^verbatim>\<open>continue\<close>.
\<close>

definition init_entry :: "string \<times> SectionMetadata \<Rightarrow> Selections \<Rightarrow> Selections" where
  "init_entry entry initialSelections =
     (case entry of (key, sectionMeta) \<Rightarrow>
        if key = ''header'' then initialSelections
        else if meta_type sectionMeta = SimpleSection
          then initialSelections(key \<mapsto> Simple True)
        else initialSelections(key \<mapsto> Complex True (item_indices (item_count sectionMeta))))"

definition initialSelections :: "(string \<times> SectionMetadata) list \<Rightarrow> Selections" where
  "initialSelections md = fold init_entry md Map.empty"

text \<open>The selection a non-header key starts with.\<close>

definition initial_selection :: "SectionMetadata \<Rightarrow> selection" where
  "initial_selection m =
     (if meta_type m = SimpleSection then Simple True
      else Complex True (item_indices (item_count m)))"

text \<open>
  What \<^verbatim>\<open>await parseSections(...)\<close> hands to the page: a response with
  \<^verbatim>\<open>success\<close> and its payload, a response without \<^verbatim>\<open>success\<close> and its optional error
  message, or an exception caught by the surrounding \<^verbatim>\<open>try\<close> with its message.
\<close>

datatype parse_outcome =
    Succeeded ParsedData "(string \<times> SectionMetadata) list"
  | Rejected "string option"
  | Threw string

definition parseLatexSections :: "page_state \<Rightarrow> parse_outcome \<Rightarrow> page_state" where
  "parseLatexSections st result =
     (case result of
        Succeeded pd md \<Rightarrow>
          st\<lparr>parsedData := Some pd, metadata := md,
             selections := initialSelections md, error := None\<rparr>
      | Rejected msg \<Rightarrow>
          st\<lparr>error := Some (case msg of
                  None \<Rightarrow> ''Failed to parse LaTeX sections''
                | Some m \<Rightarrow> if m = [] then ''Failed to parse LaTeX sections'' else m)\<rparr>
      | Threw msg \<Rightarrow> st\<lparr>error := Some msg\<rparr>)"

section \<open>Selection handlers\<close>

datatype js_error = TypeError

text \<open>
  \<^verbatim>\<open>currentSelection?.items ?? []\<close>: an absent selection and a boolean one have no
  \<^verbatim>\<open>items\<close>.
\<close>

definition current_items :: "selection option \<Rightarrow> nat list" where
  "current_items currentSelection =
     (case currentSelection of Some (Complex e its) \<Rightarrow> its | _ \<Rightarrow> [])"

text \<open>
  \<^verbatim>\<open>metadata[sectionKey].type\<close> throws a TypeError for a key the metadata does not have;
  then \<^verbatim>\<open>setSelections\<close> is not reached.
\<close>

definition handleSectionChange :: "page_state \<Rightarrow> string \<Rightarrow> bool \<Rightarrow> js_error + page_state" where
  "handleSectionChange st sectionKey enabled =
     (case map_of (metadata st) sectionKey of
        None \<Rightarrow> Inl TypeError
      | Some m \<Rightarrow>
          if meta_type m = SimpleSection
          then Inr (st\<lparr>selections := (selections st)(sectionKey \<mapsto> Simple enabled)\<rparr>)
          else Inr (st\<lparr>selections := (selections st)(sectionKey \<mapsto>
                 Complex enabled
                   (if enabled then current_items (selections st sectionKey) else []))\<rparr>))"

definition handleItemChange :: "page_state \<Rightarrow> string \<Rightarrow> nat \<Rightarrow> bool \<Rightarrow> page_state" where
  "handleItemChange st sectionKey itemIndex enabled =
     (let its = current_items (selections st sectionKey);
          newItems =
            (if enabled
             then (if itemIndex \<in> set its then its else its @ [itemIndex])
             else filter (\<lambda>i. i \<noteq> itemIndex) its)
      in st\<lparr>selections := (selections st)(sectionKey \<mapsto> Complex (newItems \<noteq> []) newItems)\<rparr>)"

text \<open>
  The checkbox events of the page. A handler that throws leaves the state as it was.
\<close>

datatype event = SectionChange string bool | ItemChange string nat bool

definition dispatch :: "page_state \<Rightarrow> event \<Rightarrow> page_state" where
  "dispatch st ev =
     (case ev of
        SectionChange k b \<Rightarrow> (case handleSectionChange st k b of Inl e \<Rightarrow> st | Inr st' \<Rightarrow> st')
      | ItemChange k i b \<Rightarrow> handleItemChange st k i b)"

definition items_distinct :: "Selections \<Rightarrow> bool" where
  "items_distinct sel = (\<forall>k e its. sel k = Some (Complex e its) \<longrightarrow> distinct its)"

section \<open>The assembler\<close>

text \<open>
  Modelled from the spec: the assembler behind \<^verbatim>\<open>/api/filter-latex\<close>
  (\<^verbatim>\<open>generate_filtered_latex\<close> of the backend's \<^verbatim>\<open>section_selector.py\<close>) is not among the
  sources; the definitions of this section follow section 4.4 of the specification.

  \<open>join_items\<close>: a blank line (two newlines) after every emitted item but the last.
\<close>

definition join_items :: "string list \<Rightarrow> string" where
  "join_items ts =
     concat (map (\<lambda>t. t @ [CHR 0x0A, CHR 0x0A]) (butlast ts))
     @ (case ts of [] \<Rightarrow> [] | _ \<Rightarrow> last ts)"

text \<open>
  Modelled from the spec: which items of a section the assembler emits, \<open>None\<close> when the
  section is omitted. A simple section is emitted iff its selection is \<^verbatim>\<open>true\<close> or
  absent. A complex section is omitted when \<^verbatim>\<open>enabled\<close> is false or \<^verbatim>\<open>items\<close> is empty;
  otherwise the requested indices (a set, in the specification's data model) are put into
  ascending order, the order of the document, and those the block has are emitted. An
  absent selection selects every item. The specification does not say what a bare boolean
  means for a complex section; here it enables or disables the section with all its items.
\<close>

definition plan_section :: "SectionData \<Rightarrow> selection option \<Rightarrow> nat list option" where
  "plan_section b sel =
     (if has_items b then
        (case sel of
           None \<Rightarrow> Some (sorted_list_of_set (fst ` set (items b)))
         | Some (Simple en) \<Rightarrow>
             if en then Some (sorted_list_of_set (fst ` set (items b))) else None
         | Some (Complex en its) \<Rightarrow>
             if en = False \<or> its = [] then None
             else Some (filter (\<lambda>i. i \<in> fst ` set (items b)) (sorted_list_of_set (set its))))
      else
        (case sel of
           None \<Rightarrow> Some []
         | Some (Simple en) \<Rightarrow> if en then Some [] else None
         | Some (Complex en its) \<Rightarrow> None))"

text \<open>
  Modelled from the spec: the text of an emitted section. Simple: header and full content.
  Complex: header, the wrapper's begin markup if the section is wrapped, the selected
  items' texts joined by blank lines, the wrapper's end markup, the section-level closing
  markup.
\<close>

definition render_section :: "SectionData \<Rightarrow> nat list \<Rightarrow> string" where
  "render_section b its =
     (if has_items b then
        section_header b
        @ (case wrapper b of None \<Rightarrow> [] | Some (wbegin, wend) \<Rightarrow> wbegin)
        @ join_items (List.map_filter (map_of (items b)) its)
        @ (case wrapper b of None \<Rightarrow> [] | Some (wbegin, wend) \<Rightarrow> wend)
        @ section_closing b
      else section_header b @ full_content b)"

definition assemble_section :: "SectionData \<Rightarrow> selection option \<Rightarrow> string" where
  "assemble_section b sel =
     (case plan_section b sel of None \<Rightarrow> [] | Some its \<Rightarrow> render_section b its)"

text \<open>
  Modelled from the spec: the sections the assembler emits, with their keys and emitted
  item indices. It walks \<open>section_info\<close> in order, finds each block under the normalized
  key of the title, and looks the selection up under the same key; selection keys that
  match no section are never looked at.
\<close>

definition emitted ::
  "ParsedData \<Rightarrow> Selections \<Rightarrow> (string \<times> SectionData \<times> nat list) list" where
  "emitted pd sel =
     List.map_filter
       (\<lambda>si. let k = spec_section_key (title si) in
          case map_of (sections (latex_blocks pd)) k of
            None \<Rightarrow> None
          | Some b \<Rightarrow> map_option (\<lambda>its. (k, b, its)) (plan_section b (sel k)))
       (section_info pd)"

text \<open>
  Modelled from the spec: \<open>assemble\<close> is the preamble, the emitted sections, the closing
  block, concatenated.
\<close>

definition assemble :: "ParsedData \<Rightarrow> Selections \<Rightarrow> string" where
  "assemble pd sel =
     preamble (latex_blocks pd)
     @ concat (map (\<lambda>(k, b, its). render_section b its) (emitted pd sel))
     @ closing (latex_blocks pd)"

section \<open>A small document\<close>

definition example_metadata :: "(string \<times> SectionMetadata) list" where
  "example_metadata =
     [(''header'', \<lparr>meta_type = SimpleSection, label = ''Header'', item_count = None\<rparr>),
      (''summary'', \<lparr>meta_type = SimpleSection, label = ''Summary'', item_count = None\<rparr>),
      (''education'',
         \<lparr>meta_type = ComplexSection, label = ''Education'', item_count = Some 2\<rparr>)]"

definition example_education :: SectionData where
  "example_education =
     \<lparr>full_content = ''MIT Stanford'', section_header = ''[Education]'', has_items = True,
      block_title = ''Education'', items = [(0, ''MIT''), (1, ''Stanford'')],
      wrapper = Some (''<'', ''>''), section_closing = ''.''\<rparr>"

definition example_summary :: SectionData where
  "example_summary =
     \<lparr>full_content = ''Engineer'', section_header = ''[Summary]'', has_items = False,
      block_title = ''Summary'', items = [], wrapper = None, section_closing = []\<rparr>"

definition example_parsed :: ParsedData where
  "example_parsed =
     \<lparr>format_id = ''ATS'',
      latex_blocks = \<lparr>preamble = ''PRE'',
        sections = [(''education'', example_education), (''summary'', example_summary)],
        closing = ''END''\<rparr>,
      section_info = [\<lparr>title = ''Summary'', subsections = []\<rparr>,
                      \<lparr>title = ''Education'', subsections = [''MIT'', ''Stanford'']\<rparr>],
      original_latex = ''PRE[Summary]Engineer[Education]<MIT Stanford>.END''\<rparr>"

definition example_page :: page_state where
  "example_page = parseLatexSections initial_page (Succeeded example_parsed example_metadata)"

section \<open>Selections equal up to the order of their items\<close>

text \<open>
  Two selections of one key are alike when they have the same shape and flag and their
  item lists are permutations of each other; two selection maps, when they are alike at
  every key. The order in which a JSON object enumerates its keys is no part of a map.
\<close>

fun sel_rel :: "selection \<Rightarrow> selection \<Rightarrow> bool" where
  "sel_rel (Simple a) (Simple b) = (a = b)"
| "sel_rel (Complex e its) (Complex f jts) = (e = f \<and> mset its = mset jts)"
| "sel_rel _ _ = False"

definition sel_equiv :: "Selections \<Rightarrow> Selections \<Rightarrow> bool" where
  "sel_equiv s1 s2 = (\<forall>k. rel_option sel_rel (s1 k) (s2 k))"

definition example_sel1 :: Selections where
  "example_sel1 = [''education'' \<mapsto> Complex True [1, 0], ''summary'' \<mapsto> Simple True]"

definition example_sel2 :: Selections where
  "example_sel2 = [''summary'' \<mapsto> Simple True, ''education'' \<mapsto> Complex True [0, 1]]"

section \<open>The validator\<close>

definition backslash :: char where
  "backslash = CHR 0x5C"

text \<open>
  Modelled from the spec: the brace-balance validator of the backend is not among the
  sources; section 4.5 of the specification has it count the unescaped \<^verbatim>\<open>{\<close> and \<^verbatim>\<open>}\<close> of
  the whole document, a character preceded by a backslash not being counted. The count
  is one pass over the text that remembers whether the previous character was a
  backslash.
\<close>

fun count_unescaped :: "char \<Rightarrow> bool \<Rightarrow> string \<Rightarrow> nat" where
  "count_unescaped t escaped [] = 0"
| "count_unescaped t escaped (c # cs) =
     (if c = t \<and> \<not> escaped then 1 else 0) + count_unescaped t (c = backslash) cs"

datatype validation = Ok | BraceMismatch string string

definition braces_balanced :: "string \<Rightarrow> bool" where
  "braces_balanced s =
     (count_unescaped (CHR ''{'') False s = count_unescaped (CHR ''}'') False s)"

text \<open>
  Modelled from the spec: \<open>validate\<close> answers \<open>Ok\<close> or the mismatch with the paths of the
  debug pair.
\<close>

definition validate :: "string \<Rightarrow> validation" where
  "validate s =
     (if braces_balanced s then Ok
      else BraceMismatch ''filtered_debug.tex'' ''original_debug.tex'')"

type_synonym files = "string \<rightharpoonup> string"

text \<open>
  Modelled from the spec: the filter entry point assembles, validates, and on a mismatch
  writes the filtered text and the original text as the debug pair. The filtered text is
  returned in both cases, with the validator's answer and the files as they are
  afterwards.
\<close>

definition generate_filtered_latex ::
  "files \<Rightarrow> ParsedData \<Rightarrow> Selections \<Rightarrow> string \<times> validation \<times> files" where
  "generate_filtered_latex fs pd sel =
     (let filtered = assemble pd sel in
      case validate filtered of
        Ok \<Rightarrow> (filtered, Ok, fs)
      | BraceMismatch fpath opath \<Rightarrow>
          (filtered, BraceMismatch fpath opath,
           fs(fpath \<mapsto> filtered, opath \<mapsto> original_latex pd)))"

text \<open>
  The count as the claim words it: the positions that hold the character and are not
  preceded by a backslash.
\<close>

definition unescaped_count :: "char \<Rightarrow> string \<Rightarrow> nat" where
  "unescaped_count c s =
     length (filter (\<lambda>i. s ! i = c \<and> (i = 0 \<or> s ! (i - 1) \<noteq> backslash)) [0 ..< length s])"

definition example_unbalanced :: ParsedData where
  "example_unbalanced =
     \<lparr>format_id = ''ATS'',
      latex_blocks = \<lparr>preamble = ''{a'', sections = [], closing = [backslash, CHR ''}'']\<rparr>,
      section_info = [],
      original_latex = ''{a}''\<rparr>"

section \<open>The API client\<close>

text \<open>
  \<^verbatim>\<open>apiRequest\<close> and the wrappers built on it (\<^verbatim>\<open>utils/api\<close>). A parsed JSON body is a
  value of \<open>json\<close>. A JSON number is parsed to a double: \<open>Num m e\<close> is the finite double
  \<open>m * 2 ^ e\<close>, and a literal too large for a double becomes an infinity.
\<close>

datatype js_number = Num int int | PosInfinity | NegInfinity

datatype json =
    JNull | JBool bool | JNum js_number | JStr string
  | JArr "json list" | JObj "(string \<times> json) list"

text \<open>
  What a \<^verbatim>\<open>throw\<close> or a rejected promise carries: whether it is an
  \<^verbatim>\<open>instanceof Error\<close>, its \<^verbatim>\<open>name\<close> and its \<^verbatim>\<open>message\<close>. An awaited promise is pending
  for ever, rejected, or resolved.
\<close>

datatype thrown = Thrown (is_Error: bool) (exn_name: string) (exn_message: string)

datatype 'a promise = Pending | Rejected thrown | Resolved 'a

text \<open>
  A \<^verbatim>\<open>Response\<close>. \<open>body\<close> is how reading it as JSON ends: with the parsed value, with a
  text that is not JSON, with the connection failing underway, or never, when the server
  stops sending.
\<close>

datatype body_read = Parsed json | NotJson string | ReadFailed string | Stalled

record response =
  ok :: bool
  status :: nat
  statusText :: string
  body :: body_read

text \<open>
  What \<^verbatim>\<open>fetch\<close> is called with; the body is the value handed to \<^verbatim>\<open>JSON.stringify\<close>. The
  time after which the \<^verbatim>\<open>AbortController\<close> aborts is part of the request, so that the
  environment's answer may depend on it. \<open>fetch\<close> is the environment. While the fetch is
  under way the abort timer runs, so it ends: with a response, aborted by the timer, or
  with a network failure.
\<close>

record request =
  url :: string
  http_method :: string
  headers :: "(string \<times> string) list"
  request_body :: "json option"
  timeout :: nat

datatype fetch_result = Responded response | Aborted string | NetworkFailed string

type_synonym fetch = "request \<Rightarrow> fetch_result"

text \<open>
  \<^verbatim>\<open>ApiResponse\<close>; its \<^verbatim>\<open>error\<close> field is \<open>api_error\<close> here.
\<close>

record ApiResponse =
  success :: bool
  data :: "json option"
  api_error :: "json option"

definition API_BASE_URL :: string where
  "API_BASE_URL = ''http://localhost:54782''"

definition REQUEST_TIMEOUT :: nat where
  "REQUEST_TIMEOUT = 30000"

text \<open>
  \<^verbatim>\<open>await fetch(...)\<close>: an abort rejects with a DOMException named \<^verbatim>\<open>AbortError\<close>, a
  network failure with a TypeError; both are instances of \<^verbatim>\<open>Error\<close>.
\<close>

definition await_fetch :: "fetch_result \<Rightarrow> response promise" where
  "await_fetch fetched =
     (case fetched of
        Responded response \<Rightarrow> Resolved response
      | Aborted msg \<Rightarrow> Rejected (Thrown True ''AbortError'' msg)
      | NetworkFailed msg \<Rightarrow> Rejected (Thrown True ''TypeError'' msg))"

text \<open>
  \<^verbatim>\<open>await response.json()\<close>. It runs after \<^verbatim>\<open>clearTimeout(timeoutId)\<close>: nothing aborts
  the reading of the body any more, and a body that never ends leaves the promise
  pending. A text that is not JSON rejects with a SyntaxError, a failing connection
  with a TypeError.
\<close>

definition response_json :: "response \<Rightarrow> json promise" where
  "response_json response =
     (case body response of
        Parsed d \<Rightarrow> Resolved d
      | NotJson msg \<Rightarrow> Rejected (Thrown True ''SyntaxError'' msg)
      | ReadFailed msg \<Rightarrow> Rejected (Thrown True ''TypeError'' msg)
      | Stalled \<Rightarrow> Pending)"

text \<open>JavaScript truthiness of a parsed value, for \<^verbatim>\<open>data.error || {...}\<close>.\<close>

fun truthy :: "json \<Rightarrow> bool" where
  "truthy JNull = False"
| "truthy (JBool b) = b"
| "truthy (JNum (Num m e)) = (m \<noteq> 0)"
| "truthy (JNum n) = True"
| "truthy (JStr s) = (s \<noteq> [])"
| "truthy (JArr xs) = True"
| "truthy (JObj kvs) = True"

text \<open>
  \<^verbatim>\<open>data.error\<close>: a TypeError on \<^verbatim>\<open>null\<close>, the property of an object, \<^verbatim>\<open>undefined\<close> (\<open>None\<close>)
  on anything else.
\<close>

fun get_error :: "json \<Rightarrow> thrown + json option" where
  "get_error JNull =
     Inl (Thrown True ''TypeError'' ''Cannot read properties of null (reading 'error')'')"
| "get_error (JObj kvs) = Inr (map_of kvs ''error'')"
| "get_error _ = Inr None"

text \<open>The decimal digits of \<^verbatim>\<open>response.status\<close> in the template string.\<close>

function show_nat :: "nat \<Rightarrow> string" where
  "show_nat n =
     (if n < 10 then [''0123456789'' ! n]
      else show_nat (n div 10) @ [''0123456789'' ! (n mod 10)])"
  by pat_completeness auto
termination
  by (relation "measure id") auto

definition mk_error :: "string \<Rightarrow> string \<Rightarrow> json" where
  "mk_error ty msg = JObj [(''type'', JStr ty), (''message'', JStr msg)]"

definition failure :: "json \<Rightarrow> ApiResponse" where
  "failure e = \<lparr>success = False, data = None, api_error = Some e\<rparr>"

text \<open>
  The body of the \<^verbatim>\<open>try\<close> block, given how the \<^verbatim>\<open>fetch\<close> ended: it returns a response
  (\<open>Resolved\<close>), throws (\<open>Rejected\<close>), or waits for ever at an \<^verbatim>\<open>await\<close> (\<open>Pending\<close>).
\<close>

definition apiRequest_try :: "fetch_result \<Rightarrow> ApiResponse promise" where
  "apiRequest_try fetched =
     (case await_fetch fetched of
        Pending \<Rightarrow> Pending
      | Rejected e \<Rightarrow> Rejected e
      | Resolved response \<Rightarrow>
          (case response_json response of
             Pending \<Rightarrow> Pending
           | Rejected e \<Rightarrow> Rejected e
           | Resolved d \<Rightarrow>
               if \<not> ok response then
                 (case get_error d of
                    Inl e \<Rightarrow> Rejected e
                  | Inr err \<Rightarrow>
                      Resolved (failure
                        (case err of
                           Some e \<Rightarrow>
                             if truthy e then e
                             else mk_error ''api_error''
                               (''HTTP '' @ show_nat (status response) @ '': ''
                                  @ statusText response)
                         | None \<Rightarrow>
                             mk_error ''api_error''
                               (''HTTP '' @ show_nat (status response) @ '': ''
                                  @ statusText response))))
               else Resolved \<lparr>success = True, data = Some d, api_error = None\<rparr>))"

text \<open>The \<^verbatim>\<open>catch\<close> block.\<close>

definition apiRequest_catch :: "thrown \<Rightarrow> ApiResponse" where
  "apiRequest_catch err =
     (if is_Error err then
        if exn_name err = ''AbortError'' then
          failure (mk_error ''timeout_error''
            ''Request timed out. Please check your connection and try again.'')
        else failure (mk_error ''network_error'' (''Network error: '' @ exn_message err))
      else failure (mk_error ''unknown_error'' ''An unexpected error occurred''))"

definition mk_request :: "string \<Rightarrow> string \<Rightarrow> json option \<Rightarrow> nat \<Rightarrow> request" where
  "mk_request endpoint meth b tmo =
     \<lparr>url = API_BASE_URL @ endpoint, http_method = meth,
      headers = [(''Content-Type'', ''application/json'')], request_body = b, timeout = tmo\<rparr>"

text \<open>
  \<^verbatim>\<open>try\<close> and \<^verbatim>\<open>catch\<close> together, the promise \<^verbatim>\<open>apiRequest\<close> returns: what the \<^verbatim>\<open>try\<close>
  block throws, the \<^verbatim>\<open>catch\<close> block turns into a response; where the \<^verbatim>\<open>try\<close> block
  waits for ever, so does the promise.
\<close>

definition settle :: "fetch_result \<Rightarrow> ApiResponse promise" where
  "settle fetched =
     (case apiRequest_try fetched of
        Pending \<Rightarrow> Pending
      | Rejected err \<Rightarrow> Resolved (apiRequest_catch err)
      | Resolved r \<Rightarrow> Resolved r)"

definition apiRequest ::
  "fetch \<Rightarrow> string \<Rightarrow> string \<Rightarrow> json option \<Rightarrow> nat \<Rightarrow> ApiResponse promise" where
  "apiRequest fetch endpoint meth b tmo = settle (fetch (mk_request endpoint meth b tmo))"

definition compileLatex :: "fetch \<Rightarrow> string \<Rightarrow> ApiResponse promise" where
  "compileLatex fetch latexCode =
     apiRequest fetch ''/api/compile-latex'' ''POST''
       (Some (JObj [(''latexCode'', JStr latexCode)])) REQUEST_TIMEOUT"

definition preprocessLatex :: "fetch \<Rightarrow> string \<Rightarrow> ApiResponse promise" where
  "preprocessLatex fetch latexCode =
     apiRequest fetch ''/api/preprocess-latex'' ''POST''
       (Some (JObj [(''latexCode'', JStr latexCode)])) REQUEST_TIMEOUT"

definition parseSections :: "fetch \<Rightarrow> string \<Rightarrow> string option \<Rightarrow> ApiResponse promise" where
  "parseSections fetch latexCode templateId =
     apiRequest fetch ''/api/parse-sections'' ''POST''
       (Some (JObj ((''latexCode'', JStr latexCode) #
          (case templateId of None \<Rightarrow> [] | Some t \<Rightarrow> [(''templateId'', JStr t)]))))
       REQUEST_TIMEOUT"

definition filterLatex :: "fetch \<Rightarrow> json \<Rightarrow> json \<Rightarrow> ApiResponse promise" where
  "filterLatex fetch parsed sels =
     apiRequest fetch ''/api/filter-latex'' ''POST''
       (Some (JObj [(''parsedData'', parsed), (''selections'', sels)])) REQUEST_TIMEOUT"

text \<open>The \<^verbatim>\<open>type\<close> of the error of a response.\<close>

definition error_type :: "ApiResponse \<Rightarrow> string option" where
  "error_type r =
     (case api_error r of
        Some (JObj kvs) \<Rightarrow> (case map_of kvs ''type'' of Some (JStr t) \<Rightarrow> Some t | _ \<Rightarrow> None)
      | _ \<Rightarrow> None)"

text \<open>
  Outcomes of a fetch for the examples: a page that is not JSON sent with status 200, a
  body that never ends, an abort by the timer, no connection, and a JSON answer.
\<close>

definition example_html_response :: response where
  "example_html_response =
     \<lparr>ok = True, status = 200, statusText = ''OK'',
      body = NotJson ''Unexpected token < in JSON at position 0''\<rparr>"

definition example_html_fetch :: fetch where
  "example_html_fetch req = Responded example_html_response"

definition example_stalled_response :: response where
  "example_stalled_response = \<lparr>ok = True, status = 200, statusText = ''OK'', body = Stalled\<rparr>"

definition example_stalled_fetch :: fetch where
  "example_stalled_fetch req = Responded example_stalled_response"

definition example_timeout_fetch :: fetch where
  "example_timeout_fetch req = Aborted ''signal is aborted without reason''"

definition example_offline_fetch :: fetch where
  "example_offline_fetch req = NetworkFailed ''Failed to fetch''"

definition example_ok_response :: response where
  "example_ok_response =
     \<lparr>ok = True, status = 200, statusText = ''OK'',
      body = Parsed (JObj [(''filteredLatex'', JStr ''x'')])\<rparr>"

definition example_ok_fetch :: fetch where
  "example_ok_fetch req = Responded example_ok_response"

section \<open>Properties of the section key\<close>

lemma not_class_underscore: "\<not> in_class CHR ''_''"
  by (simp add: in_class_def charCode_def)

lemma replace_runs_prefix:
  "\<forall>c\<in>set xs. in_class c \<Longrightarrow> replace_runs (xs @ ys) = xs @ replace_runs ys"
  by (induction xs) auto

lemma replace_runs_spec: "replace_runs s = spec_collapse s"
proof (induction s rule: runs.induct)
  case 1
  show ?case by (simp add: spec_collapse_def)
next
  case (2 c cs)
  show ?case
  proof (cases "in_class c")
    case True
    let ?t = "takeWhile (\<lambda>d. in_class d = in_class c) cs"
    let ?d = "dropWhile (\<lambda>d. in_class d = in_class c) cs"
    have all: "\<forall>x\<in>set (c # ?t). in_class x"
      using True by (auto dest: set_takeWhileD)
    have "replace_runs (c # cs) = replace_runs ((c # ?t) @ ?d)" by simp
    also have "\<dots> = (c # ?t) @ replace_runs ?d" using all by (rule replace_runs_prefix)
    also have "\<dots> = (c # ?t) @ spec_collapse ?d" using 2 by simp
    also have "\<dots> = spec_collapse (c # cs)" using True by (simp add: spec_collapse_def)
    finally show ?thesis .
  next
    case False
    then have eq: "(\<lambda>d. in_class d = in_class c) = (\<lambda>d. \<not> in_class d)" by auto
    show ?thesis using False 2 by (simp add: spec_collapse_def eq)
  qed
qed

lemma sep_replace_runs: "sep (replace_runs s)"
proof (induction s rule: replace_runs.induct)
  case 1
  show ?case by simp
next
  case (2 c cs)
  show ?case
  proof (cases "in_class c")
    case True
    then have "c \<noteq> CHR ''_''" using not_class_underscore by auto
    with True 2 show ?thesis by (cases "replace_runs cs") auto
  next
    case False
    let ?d = "dropWhile (\<lambda>d. \<not> in_class d) cs"
    have ih: "sep (replace_runs ?d)" using False 2 by simp
    show ?thesis
    proof (cases ?d)
      case Nil
      have "replace_runs (c # cs) = CHR ''_'' # replace_runs ?d" using False by simp
      then show ?thesis by (simp only: Nil replace_runs.simps sep.simps)
    next
      case (Cons d ds)
      then have "in_class d"
        using hd_dropWhile[of "\<lambda>d. \<not> in_class d" cs] by simp
      then have "replace_runs ?d = d # replace_runs ds" and "d \<noteq> CHR ''_''"
        using Cons not_class_underscore by auto
      then show ?thesis using False ih by simp
    qed
  qed
qed

lemma sep_tl: "sep (a # xs) \<Longrightarrow> sep xs"
  by (cases xs) auto

lemma sep_snoc: "sep (xs @ [b]) \<Longrightarrow> xs \<noteq> [] \<Longrightarrow> last xs = CHR ''_'' \<Longrightarrow> b \<noteq> CHR ''_''"
  by (induction xs rule: sep.induct) (auto split: if_splits)

lemma strip_edges_spec:
  assumes s: "sep s"
  shows "strip_edges s = spec_trim s"
proof -
  define s1 where "s1 = (case s of [] \<Rightarrow> [] | c # cs \<Rightarrow> if c = CHR ''_'' then cs else s)"
  have front: "dropWhile (\<lambda>c. c = CHR ''_'') s = s1"
    using s unfolding s1_def by (cases s rule: sep.cases) auto
  have sep1: "sep s1"
    using s unfolding s1_def by (auto split: list.splits dest: sep_tl)
  have rear: "rev (dropWhile (\<lambda>c. c = CHR ''_'') (rev s1)) =
      (if s1 \<noteq> [] \<and> last s1 = CHR ''_'' then butlast s1 else s1)"
  proof (cases s1 rule: rev_cases)
    case Nil
    then show ?thesis by simp
  next
    case (snoc r b)
    show ?thesis
    proof (cases "b = CHR ''_''")
      case False
      then show ?thesis using snoc by simp
    next
      case True
      have "r = [] \<or> last r \<noteq> CHR ''_''"
        using sep_snoc[of r b] sep1 snoc True by auto
      then have "dropWhile (\<lambda>c. c = CHR ''_'') (rev r) = rev r"
        by (cases r rule: rev_cases) auto
      then show ?thesis using snoc True by simp
    qed
  qed
  show ?thesis
    unfolding strip_edges_def spec_trim_def front rear s1_def[symmetric] by (simp add: Let_def)
qed

lemma lower_char_letters:
  "lower_char c = (case map_of lowercase_letters c of Some l \<Rightarrow> l | None \<Rightarrow> c)"
proof -
  have "\<forall>c \<in> set (Enum.enum :: char list).
      lower_char c = (case map_of lowercase_letters c of Some l \<Rightarrow> l | None \<Rightarrow> c)"
    by code_simp
  then show ?thesis by (simp add: enum_UNIV)
qed

lemma prefix_one: "prefix [a] cs \<longleftrightarrow> take 1 cs = [a]"
  by (cases cs) auto

lemma prefix_two: "prefix [a, b] cs \<longleftrightarrow> take 2 cs = [a, b]"
proof (cases cs)
  case Nil
  then show ?thesis by simp
next
  case (Cons x xs)
  then show ?thesis by (cases xs) (auto simp: numeral_2_eq_2)
qed

lemma toLowerCase_spec: "toLowerCase s = spec_lowercase s"
proof (induction s rule: toLowerCase.induct)
  case 1
  show ?case by simp
next
  case (2 c cs)
  then show ?case
    by (auto simp: lowercase_special_def lower_char_letters prefix_one prefix_two
          numeral_2_eq_2)
qed

text \<open>
  Claim C4. For every section title \<open>t\<close>, the key the page computes to match
  \<^verbatim>\<open>SectionInfo\<close> entries against metadata and selections keys is \<open>t\<close> lowercased, with
  every maximal run of characters outside \<^verbatim>\<open>[a-z0-9]\<close> replaced by one underscore and
  the leading and trailing underscores removed. The left side is the page's expression,
  with \<^verbatim>\<open>toLowerCase\<close> and the two regular expressions; the right side lowercases by the
  table and works on the maximal runs.
\<close>

theorem normalizedTitle_is_section_key: "normalizedTitle t = spec_section_key t"
  unfolding normalizedTitle_def spec_section_key_def
  using strip_edges_spec [OF sep_replace_runs]
  by (simp add: replace_runs_spec toLowerCase_spec)

lemma example_title_keys:
  "spec_section_key ''  Work  Experience & Co. '' = ''work_experience_co''"
  "spec_section_key ''C++ / C#'' = ''c_c''"
  "spec_section_key example_title_istanbul = ''i_stanbul''"
  "spec_section_key example_title_kelvin = ''kelvin''"
  by code_simp+

theorem normalizedTitle_is_section_key_witness:
  "normalizedTitle ''  Work  Experience & Co. '' = ''work_experience_co''
   \<and> normalizedTitle ''C++ / C#'' = ''c_c''
   \<and> normalizedTitle example_title_istanbul = ''i_stanbul''
   \<and> normalizedTitle example_title_kelvin = ''kelvin''"
  using normalizedTitle_is_section_key[of "''  Work  Experience & Co. ''"]
    normalizedTitle_is_section_key[of "''C++ / C#''"]
    normalizedTitle_is_section_key[of example_title_istanbul]
    normalizedTitle_is_section_key[of example_title_kelvin]
  by (simp add: example_title_keys)

section \<open>Initial selections and the handlers\<close>

lemma init_entry_simps:
  "init_entry (k, m) acc = (if k = ''header'' then acc else acc(k \<mapsto> initial_selection m))"
  by (simp add: init_entry_def initial_selection_def)

lemma fold_init_dom:
  "dom (fold init_entry md acc) = dom acc \<union> (fst ` set md - {''header''})"
proof (induction md arbitrary: acc)
  case Nil show ?case by simp
next
  case (Cons e md)
  obtain k m where e: "e = (k, m)" by (cases e)
  show ?case unfolding e by (simp add: Cons init_entry_simps del: fun_upd_apply) blast
qed

lemma fold_init_notin:
  "k \<notin> fst ` set md \<Longrightarrow> fold init_entry md acc k = acc k"
proof (induction md arbitrary: acc)
  case Nil show ?case by simp
next
  case (Cons e md)
  obtain k' m where e: "e = (k', m)" by (cases e)
  have "k \<noteq> k'" and "k \<notin> fst ` set md" using Cons.prems e by auto
  then show ?case unfolding e by (simp add: Cons.IH init_entry_simps)
qed

lemma fold_init_value:
  "distinct (map fst md) \<Longrightarrow> (k, m) \<in> set md \<Longrightarrow> k \<noteq> ''header'' \<Longrightarrow>
     fold init_entry md acc k = Some (initial_selection m)"
proof (induction md arbitrary: acc)
  case Nil then show ?case by simp
next
  case (Cons e md)
  obtain k' m' where e: "e = (k', m')" by (cases e)
  show ?case
  proof (cases "(k, m) = (k', m')")
    case True
    then have "k \<notin> fst ` set md" using Cons.prems(1) e by auto
    then show ?thesis unfolding e using True Cons.prems(3)
      by (simp add: fold_init_notin init_entry_simps)
  next
    case False
    then have "(k, m) \<in> set md" using Cons.prems(2) e by auto
    then show ?thesis unfolding e using Cons.IH Cons.prems(1,3) by simp
  qed
qed

lemma fold_init_distinct:
  "items_distinct acc \<Longrightarrow> items_distinct (fold init_entry md acc)"
proof (induction md arbitrary: acc)
  case Nil then show ?case by simp
next
  case (Cons e md)
  obtain k m where e: "e = (k, m)" by (cases e)
  have "items_distinct (init_entry (k, m) acc)"
    using Cons.prems
    by (simp add: init_entry_simps initial_selection_def items_distinct_def item_indices_def)
  then show ?case unfolding e using Cons.IH by simp
qed

lemma handleItemChange_distinct:
  "items_distinct (selections st) \<Longrightarrow> items_distinct (selections (handleItemChange st k i b))"
  by (auto simp: items_distinct_def handleItemChange_def current_items_def Let_def
           split: option.splits selection.splits)

lemma handleSectionChange_distinct:
  "items_distinct (selections st) \<Longrightarrow> handleSectionChange st k b = Inr st' \<Longrightarrow>
   items_distinct (selections st')"
  by (auto simp: items_distinct_def handleSectionChange_def current_items_def
           split: option.splits selection.splits if_splits)

lemma dispatch_distinct:
  "items_distinct (selections st) \<Longrightarrow> items_distinct (selections (dispatch st ev))"
  by (cases ev)
     (auto simp: dispatch_def handleItemChange_distinct
           dest: handleSectionChange_distinct split: sum.splits)

lemma foldl_dispatch_distinct:
  "items_distinct (selections st) \<Longrightarrow> items_distinct (selections (foldl dispatch st evs))"
  by (induction evs arbitrary: st) (auto simp: dispatch_distinct)


lemma example_keys:
  "spec_section_key ''Summary'' = ''summary''" "spec_section_key ''Education'' = ''education''"
  by code_simp+

lemma example_page_selections:
  "selections example_page = [''summary'' \<mapsto> Simple True, ''education'' \<mapsto> Complex True [0, 1]]"
  by (simp add: example_page_def parseLatexSections_def initialSelections_def example_metadata_def
      init_entry_def item_indices_def initial_page_def upt_rec)

lemma example_page_metadata: "metadata example_page = example_metadata"
  by (simp add: example_page_def parseLatexSections_def)

text \<open>
  Claim C5. After a successful \<^verbatim>\<open>parseSections\<close> call the selections map has exactly
  the metadata keys other than \<^verbatim>\<open>header\<close>; a key of type simple maps to \<^verbatim>\<open>true\<close>, every
  other key to \<^verbatim>\<open>{enabled: true, items: [0, ..., item_count - 1]}\<close>, with the empty list
  when \<^verbatim>\<open>item_count\<close> is absent. The keys of the metadata object are distinct, as those
  of any JavaScript object.
\<close>

theorem parse_success_initial_selections:
  assumes "distinct (map fst md)"
  shows "dom (selections (parseLatexSections st (Succeeded pd md))) = fst ` set md - {''header''}
     \<and> (\<forall>(k, m) \<in> set md. k \<noteq> ''header'' \<longrightarrow>
          selections (parseLatexSections st (Succeeded pd md)) k =
            Some (if meta_type m = SimpleSection then Simple True
                  else Complex True [0 ..< (case item_count m of None \<Rightarrow> 0 | Some n \<Rightarrow> n)]))"
  using assms fold_init_value[of md _ _ Map.empty]
  by (auto simp: parseLatexSections_def initialSelections_def fold_init_dom
        initial_selection_def item_indices_def)

theorem parse_success_initial_selections_witness:
  "distinct (map fst example_metadata)
   \<and> dom (selections (parseLatexSections initial_page (Succeeded example_parsed example_metadata)))
       = {''summary'', ''education''}
   \<and> selections (parseLatexSections initial_page (Succeeded example_parsed example_metadata)) ''summary''
       = Some (Simple True)
   \<and> selections (parseLatexSections initial_page (Succeeded example_parsed example_metadata)) ''education''
       = Some (Complex True [0, 1])"
proof -
  have d: "distinct (map fst example_metadata)" by (simp add: example_metadata_def)
  have "fst ` set example_metadata - {''header''} = {''summary'', ''education''}"
    by (auto simp: example_metadata_def)
  then show ?thesis
    using d parse_success_initial_selections[OF d, of initial_page example_parsed]
    by (simp add: example_metadata_def upt_rec)
qed


lemma plan_section_disabled: "plan_section b (Some (Complex False [])) = None"
  by (simp add: plan_section_def)

lemma in_set_map_filter:
  "y \<in> set (List.map_filter f xs) \<longleftrightarrow> (\<exists>x\<in>set xs. f x = Some y)"
  by (induction xs) (auto split: option.splits)

lemma emitted_key_planned:
  "(k, b, its) \<in> set (emitted pd sel) \<Longrightarrow>
     map_of (sections (latex_blocks pd)) k = Some b \<and> plan_section b (sel k) = Some its"
  by (auto simp: emitted_def in_set_map_filter Let_def split: option.splits)

text \<open>
  Claim C6. Deselecting an item of a complex selection removes exactly that index from
  the key's items and sets \<^verbatim>\<open>enabled\<close> to whether items remain. Deselecting the only
  selected item gives \<^verbatim>\<open>{enabled: false, items: []}\<close>, and the assembler then emits
  nothing for the section: no header, no wrapper markup, no entry among the emitted
  sections.
\<close>

theorem deselect_item_omits_section:
  assumes "selections st k = Some (Complex e its)"
  shows "selections (handleItemChange st k i False) k =
           Some (Complex (filter (\<lambda>j. j \<noteq> i) its \<noteq> []) (filter (\<lambda>j. j \<noteq> i) its))
     \<and> (its = [i] \<longrightarrow>
           selections (handleItemChange st k i False) k = Some (Complex False [])
         \<and> assemble_section b (selections (handleItemChange st k i False) k) = []
         \<and> k \<notin> fst ` set (emitted pd (selections (handleItemChange st k i False))))"
proof -
  let ?st = "handleItemChange st k i False"
  have upd: "selections ?st k =
      Some (Complex (filter (\<lambda>j. j \<noteq> i) its \<noteq> []) (filter (\<lambda>j. j \<noteq> i) its))"
    using assms by (simp add: handleItemChange_def current_items_def Let_def)
  have "k \<notin> fst ` set (emitted pd (selections ?st))" if "its = [i]"
  proof
    assume "k \<in> fst ` set (emitted pd (selections ?st))"
    then obtain b' its' where "(k, b', its') \<in> set (emitted pd (selections ?st))" by auto
    then have "plan_section b' (selections ?st k) = Some its'"
      by (simp add: emitted_key_planned)
    then show False using upd that by (simp add: plan_section_disabled)
  qed
  then show ?thesis using upd by (simp add: assemble_section_def plan_section_disabled)
qed

theorem deselect_item_omits_section_witness:
  "selections (handleItemChange example_page ''education'' 0 False) ''education''
      = Some (Complex True [1])
   \<and> selections (handleItemChange (handleItemChange example_page ''education'' 0 False)
        ''education'' 1 False) ''education'' = Some (Complex False [])
   \<and> assemble_section example_education
        (selections (handleItemChange (handleItemChange example_page ''education'' 0 False)
           ''education'' 1 False) ''education'') = []
   \<and> ''education'' \<notin> fst ` set (emitted example_parsed
        (selections (handleItemChange (handleItemChange example_page ''education'' 0 False)
           ''education'' 1 False)))"
proof -
  have a: "selections example_page ''education'' = Some (Complex True [0, 1])"
    by (simp add: example_page_selections)
  have b: "selections (handleItemChange example_page ''education'' 0 False) ''education''
      = Some (Complex True [1])"
    using deselect_item_omits_section[OF a, of 0] by simp
  show ?thesis
    using b deselect_item_omits_section[OF b, of 1 example_education example_parsed]
    by (simp add: assemble_section_def plan_section_disabled)
qed

text \<open>
  Claim C8. For a key whose metadata type is complex, \<^verbatim>\<open>handleSectionChange(k, false)\<close>
  sets the selection to \<^verbatim>\<open>{enabled: false, items: []}\<close> and a following
  \<^verbatim>\<open>handleSectionChange(k, true)\<close> gives \<^verbatim>\<open>{enabled: true, items: []}\<close>: the items selected
  before are not restored, and the round trip returns the selections it started from only
  when the key already held \<^verbatim>\<open>{enabled: true, items: []}\<close>.
\<close>

theorem disable_enable_loses_items:
  assumes "map_of (metadata st) k = Some m" and "meta_type m = ComplexSection"
  shows "\<exists>st1 st2.
       handleSectionChange st k False = Inr st1
     \<and> selections st1 = (selections st)(k \<mapsto> Complex False [])
     \<and> handleSectionChange st1 k True = Inr st2
     \<and> selections st2 = (selections st)(k \<mapsto> Complex True [])
     \<and> (selections st2 = selections st \<longleftrightarrow> selections st k = Some (Complex True []))"
proof -
  let ?st1 = "st\<lparr>selections := (selections st)(k \<mapsto> Complex False [])\<rparr>"
  let ?st2 = "?st1\<lparr>selections := (selections ?st1)(k \<mapsto> Complex True [])\<rparr>"
  have 1: "handleSectionChange st k False = Inr ?st1"
    using assms by (simp add: handleSectionChange_def)
  have 2: "handleSectionChange ?st1 k True = Inr ?st2"
    using assms by (simp add: handleSectionChange_def current_items_def)
  have 3: "selections ?st2 = (selections st)(k \<mapsto> Complex True [])" by simp
  have 4: "((selections st)(k \<mapsto> Complex True []) = selections st)
       \<longleftrightarrow> selections st k = Some (Complex True [])"
    by (metis fun_upd_same fun_upd_triv)
  show ?thesis using 1 2 3 4 by (intro exI[of _ ?st1] exI[of _ ?st2]) simp
qed

theorem disable_enable_loses_items_witness:
  "map_of (metadata example_page) ''education''
      = Some \<lparr>meta_type = ComplexSection, label = ''Education'', item_count = Some 2\<rparr>
   \<and> selections example_page ''education'' = Some (Complex True [0, 1])
   \<and> (\<exists>st1 st2.
       handleSectionChange example_page ''education'' False = Inr st1
     \<and> selections st1 ''education'' = Some (Complex False [])
     \<and> handleSectionChange st1 ''education'' True = Inr st2
     \<and> selections st2 ''education'' = Some (Complex True [])
     \<and> selections st2 \<noteq> selections example_page)"
proof -
  have m: "map_of (metadata example_page) ''education''
      = Some \<lparr>meta_type = ComplexSection, label = ''Education'', item_count = Some 2\<rparr>"
    by (simp add: example_page_metadata example_metadata_def)
  have s: "selections example_page ''education'' = Some (Complex True [0, 1])"
    by (simp add: example_page_selections)
  obtain st1 st2 where
    "handleSectionChange example_page ''education'' False = Inr st1"
    "selections st1 = (selections example_page)(''education'' \<mapsto> Complex False [])"
    "handleSectionChange st1 ''education'' True = Inr st2"
    "selections st2 = (selections example_page)(''education'' \<mapsto> Complex True [])"
    "selections st2 = selections example_page
       \<longleftrightarrow> selections example_page ''education'' = Some (Complex True [])"
    using disable_enable_loses_items[OF m] by auto
  then show ?thesis using m s by (intro conjI exI[of _ st1] exI[of _ st2]) simp_all
qed

text \<open>
  Claim C9. From the selections set up by a successful parse, every sequence of
  \<^verbatim>\<open>handleSectionChange\<close> and \<^verbatim>\<open>handleItemChange\<close> events leads to selections in which no
  complex selection lists an index twice.
\<close>

theorem reachable_items_distinct:
  "items_distinct (selections (foldl dispatch (parseLatexSections st (Succeeded pd md)) evs))"
proof -
  have "items_distinct (selections (parseLatexSections st (Succeeded pd md)))"
    using fold_init_distinct[of Map.empty md]
    by (simp add: parseLatexSections_def initialSelections_def items_distinct_def)
  then show ?thesis by (rule foldl_dispatch_distinct)
qed

theorem reachable_items_distinct_witness:
  "selections (foldl dispatch (parseLatexSections initial_page
      (Succeeded example_parsed example_metadata))
      [ItemChange ''education'' 0 False, ItemChange ''education'' 0 True,
       ItemChange ''education'' 0 True]) ''education'' = Some (Complex True [1, 0])
   \<and> distinct [1, 0 :: nat]"
proof -
  let ?s = "selections (foldl dispatch (parseLatexSections initial_page
      (Succeeded example_parsed example_metadata))
      [ItemChange ''education'' 0 False, ItemChange ''education'' 0 True,
       ItemChange ''education'' 0 True])"
  have v: "?s ''education'' = Some (Complex True [1, 0])"
    using example_page_selections
    by (simp add: example_page_def dispatch_def handleItemChange_def current_items_def Let_def)
  have "items_distinct ?s" by (rule reachable_items_distinct)
  then have "distinct [1, 0 :: nat]" using v unfolding items_distinct_def by blast
  then show ?thesis using v by simp
qed

section \<open>Order of selection and order of the document\<close>

lemma plan_section_rel:
  assumes "rel_option sel_rel x y"
  shows "plan_section b x = plan_section b y"
proof (cases x)
  case None
  then show ?thesis using assms by (cases y) auto
next
  case (Some u)
  then obtain v where y: "y = Some v" and r: "sel_rel u v" using assms by (cases y) auto
  show ?thesis
  proof (cases u)
    case (Simple a)
    then show ?thesis using r Some y by (cases v) auto
  next
    case (Complex e its)
    then obtain jts where v: "v = Complex e jts" and m: "mset its = mset jts"
      using r by (cases v) auto
    have "set its = set jts" using m by (rule mset_eq_setD)
    moreover have "(its = []) = (jts = [])" using m by (metis mset_zero_iff)
    ultimately show ?thesis unfolding Some y Complex v by (simp add: plan_section_def)
  qed
qed

lemma emitted_equiv: "sel_equiv s1 s2 \<Longrightarrow> emitted pd s1 = emitted pd s2"
proof -
  assume "sel_equiv s1 s2"
  then have "plan_section b (s1 k) = plan_section b (s2 k)" for b k
    by (simp add: sel_equiv_def plan_section_rel)
  then have "(\<lambda>si. let k = spec_section_key (title si) in
          case map_of (sections (latex_blocks pd)) k of
            None \<Rightarrow> None
          | Some b \<Rightarrow> map_option (\<lambda>its. (k, b, its)) (plan_section b (s1 k)))
      = (\<lambda>si. let k = spec_section_key (title si) in
          case map_of (sections (latex_blocks pd)) k of
            None \<Rightarrow> None
          | Some b \<Rightarrow> map_option (\<lambda>its. (k, b, its)) (plan_section b (s2 k)))"
    by (intro ext) (simp add: Let_def split: option.split)
  then show ?thesis unfolding emitted_def by (rule arg_cong)
qed

lemma subseq_map_filter:
  "(\<And>x y. f x = Some y \<Longrightarrow> g y = h x) \<Longrightarrow> subseq (map g (List.map_filter f xs)) (map h xs)"
  by (induction xs) (auto split: option.splits)

lemma emitted_subseq:
  "subseq (map fst (emitted pd sel)) (map (\<lambda>si. spec_section_key (title si)) (section_info pd))"
  unfolding emitted_def
  by (rule subseq_map_filter) (auto simp: Let_def split: option.splits)

lemma plan_section_sorted: "plan_section b x = Some its \<Longrightarrow> sorted_wrt (<) its"
  by (auto simp: plan_section_def sorted_wrt_filter
      split: if_splits option.splits selection.splits)

text \<open>
  Claim C3. Two selection maps that are equal up to the order of each key's items (and up
  to the order in which their keys are enumerated) give the same assembled text. The
  emitted sections follow \<open>section_info\<close>, and the items emitted for a section are in
  ascending index order, the order of the document, whatever the order in the selection.
\<close>

theorem assemble_selection_order_invariant:
  assumes "sel_equiv s1 s2"
  shows "assemble pd s1 = assemble pd s2
     \<and> subseq (map fst (emitted pd s1))
          (map (\<lambda>si. spec_section_key (title si)) (section_info pd))
     \<and> (\<forall>(k, b, its) \<in> set (emitted pd s1). sorted_wrt (<) its)"
proof -
  have "assemble pd s1 = assemble pd s2"
    using assms by (simp add: assemble_def emitted_equiv)
  moreover have "sorted_wrt (<) its" if "(k, b, its) \<in> set (emitted pd s1)" for k b its
    using that emitted_key_planned plan_section_sorted by blast
  ultimately show ?thesis using emitted_subseq by auto
qed

lemma example_emitted:
  "emitted example_parsed example_sel1 =
     [(''summary'', example_summary, []), (''education'', example_education, [0, 1])]"
  by (simp add: emitted_def example_parsed_def example_keys example_sel1_def plan_section_def
      example_summary_def example_education_def)

theorem assemble_selection_order_invariant_witness:
  "sel_equiv example_sel1 example_sel2
   \<and> assemble example_parsed example_sel1 = assemble example_parsed example_sel2
   \<and> assemble example_parsed example_sel2 =
       ''PRE[Summary]Engineer[Education]<MIT'' @ [CHR 0x0A, CHR 0x0A] @ ''Stanford>.END''
   \<and> map fst (emitted example_parsed example_sel1) = [''summary'', ''education'']"
proof -
  have e: "sel_equiv example_sel1 example_sel2"
    by (simp add: sel_equiv_def example_sel1_def example_sel2_def)
  have a: "assemble example_parsed example_sel1 =
       ''PRE[Summary]Engineer[Education]<MIT'' @ [CHR 0x0A, CHR 0x0A] @ ''Stanford>.END''"
    by (simp add: assemble_def example_emitted)
       (simp add: example_parsed_def render_section_def example_summary_def
          example_education_def join_items_def)
  show ?thesis
    using e a assemble_selection_order_invariant[OF e, of example_parsed]
    by (simp add: example_emitted)
qed


section \<open>Brace balance\<close>

lemma count_unescaped_positions:
  "count_unescaped t esc s =
     length (filter (\<lambda>i. s ! i = t \<and> (if i = 0 then \<not> esc else s ! (i - 1) \<noteq> backslash))
        [0 ..< length s])"
proof (induction s arbitrary: esc)
  case Nil
  show ?case by simp
next
  case (Cons x xs)
  let ?P = "\<lambda>i. (x # xs) ! i = t \<and> (if i = 0 then \<not> esc else (x # xs) ! (i - 1) \<noteq> backslash)"
  let ?Q = "\<lambda>i. xs ! i = t \<and> (if i = 0 then \<not> (x = backslash) else xs ! (i - 1) \<noteq> backslash)"
  have shift: "?P \<circ> Suc = ?Q"
    by (rule ext) (auto simp: nth_Cons split: nat.splits)
  have "[0 ..< length (x # xs)] = 0 # map Suc [0 ..< length xs]"
    by (simp only: length_Cons upt_conv_Cons[OF zero_less_Suc] map_Suc_upt)
  then have "length (filter ?P [0 ..< length (x # xs)]) =
      (if ?P 0 then 1 else 0) + length (filter (?P \<circ> Suc) [0 ..< length xs])"
    by (simp add: filter_map del: upt_Suc)
  also have "\<dots> = (if x = t \<and> \<not> esc then 1 else 0) + count_unescaped t (x = backslash) xs"
    unfolding shift Cons.IH by simp
  finally show ?case by simp
qed

lemma count_unescaped_eq: "count_unescaped t False s = unescaped_count t s"
  unfolding count_unescaped_positions unescaped_count_def
  by (rule arg_cong[where f = length], rule filter_cong) auto

text \<open>
  Claim C2. For every assembled document the validator answers \<open>Ok\<close> exactly when the
  number of \<^verbatim>\<open>{\<close> not preceded by a backslash equals the number of \<^verbatim>\<open>}\<close> not preceded by a
  backslash. When the numbers differ it answers \<open>BraceMismatch\<close>, the files
  \<^verbatim>\<open>filtered_debug.tex\<close> and \<^verbatim>\<open>original_debug.tex\<close> hold the filtered and the original text,
  and the filtered text is returned as assembled.
\<close>

theorem validate_counts_unescaped_braces:
  assumes "generate_filtered_latex fs pd sel = (out, res, fs')"
  shows "out = assemble pd sel
   \<and> (res = Ok \<longleftrightarrow> unescaped_count (CHR ''{'') out = unescaped_count (CHR ''}'') out)
   \<and> (unescaped_count (CHR ''{'') out \<noteq> unescaped_count (CHR ''}'') out \<longrightarrow>
        res = BraceMismatch ''filtered_debug.tex'' ''original_debug.tex''
      \<and> fs' ''filtered_debug.tex'' = Some out
      \<and> fs' ''original_debug.tex'' = Some (original_latex pd))"
  using assms
  by (auto simp: generate_filtered_latex_def validate_def braces_balanced_def Let_def
        count_unescaped_eq split: if_splits)

lemma example_unbalanced_assemble:
  "assemble example_unbalanced Map.empty = [CHR ''{'', CHR ''a'', backslash, CHR ''}'']"
  by (simp add: assemble_def emitted_def example_unbalanced_def)

lemma example_unbalanced_counts:
  "unescaped_count (CHR ''{'') [CHR ''{'', CHR ''a'', backslash, CHR ''}''] = 1"
  "unescaped_count (CHR ''}'') [CHR ''{'', CHR ''a'', backslash, CHR ''}''] = 0"
  by (simp_all add: unescaped_count_def upt_rec backslash_def)

theorem validate_counts_unescaped_braces_witness:
  "fst (generate_filtered_latex Map.empty example_unbalanced Map.empty)
      = [CHR ''{'', CHR ''a'', backslash, CHR ''}'']
   \<and> unescaped_count (CHR ''{'') [CHR ''{'', CHR ''a'', backslash, CHR ''}''] = 1
   \<and> unescaped_count (CHR ''}'') [CHR ''{'', CHR ''a'', backslash, CHR ''}''] = 0
   \<and> fst (snd (generate_filtered_latex Map.empty example_unbalanced Map.empty))
      = BraceMismatch ''filtered_debug.tex'' ''original_debug.tex''
   \<and> snd (snd (generate_filtered_latex Map.empty example_unbalanced Map.empty))
        ''filtered_debug.tex'' = Some [CHR ''{'', CHR ''a'', backslash, CHR ''}'']
   \<and> snd (snd (generate_filtered_latex Map.empty example_unbalanced Map.empty))
        ''original_debug.tex'' = Some ''{a}''"
proof -
  let ?g = "generate_filtered_latex Map.empty example_unbalanced Map.empty"
  have g: "?g = (fst ?g, fst (snd ?g), snd (snd ?g))" by simp
  have o: "original_latex example_unbalanced = ''{a}''" by (simp add: example_unbalanced_def)
  show ?thesis
    using validate_counts_unescaped_braces[OF g] example_unbalanced_counts
    by (simp add: example_unbalanced_assemble o)
qed

section \<open>The API client resolves\<close>

lemma error_type_failure [simp]: "error_type (failure (mk_error ty msg)) = Some ty"
  by (simp add: error_type_def failure_def mk_error_def)

lemma success_failure [simp]: "success (failure e) = False"
  by (simp add: failure_def)

lemma catch_not_success: "\<not> success (apiRequest_catch e)"
  by (simp add: apiRequest_catch_def)

lemma settle_aborted:
  "settle (Aborted m) = Resolved (failure (mk_error ''timeout_error''
     ''Request timed out. Please check your connection and try again.''))"
  by (simp add: settle_def apiRequest_try_def await_fetch_def apiRequest_catch_def)

lemma settle_network_failed:
  "settle (NetworkFailed m) =
     Resolved (failure (mk_error ''network_error'' (''Network error: '' @ m)))"
  by (simp add: settle_def apiRequest_try_def await_fetch_def apiRequest_catch_def)

lemma settle_stalled: "body resp = Stalled \<Longrightarrow> settle (Responded resp) = Pending"
  by (simp add: settle_def apiRequest_try_def await_fetch_def response_json_def)

lemma settle_not_json:
  "body resp = NotJson m \<Longrightarrow>
     settle (Responded resp) =
       Resolved (failure (mk_error ''network_error'' (''Network error: '' @ m)))"
  by (simp add: settle_def apiRequest_try_def await_fetch_def response_json_def
      apiRequest_catch_def)

lemma settle_read_failed:
  "body resp = ReadFailed m \<Longrightarrow>
     settle (Responded resp) =
       Resolved (failure (mk_error ''network_error'' (''Network error: '' @ m)))"
  by (simp add: settle_def apiRequest_try_def await_fetch_def response_json_def
      apiRequest_catch_def)

lemma settle_ok:
  "body resp = Parsed d \<Longrightarrow> ok resp \<Longrightarrow>
     settle (Responded resp) = Resolved \<lparr>success = True, data = Some d, api_error = None\<rparr>"
  by (simp add: settle_def apiRequest_try_def await_fetch_def response_json_def)

lemma settle_not_ok:
  "body resp = Parsed d \<Longrightarrow> \<not> ok resp \<Longrightarrow>
     \<exists>r. settle (Responded resp) = Resolved r \<and> \<not> success r"
  by (auto simp: settle_def apiRequest_try_def await_fetch_def response_json_def
        catch_not_success split: sum.splits)

lemma settle_never_rejected: "settle out \<noteq> Rejected e"
  by (simp add: settle_def split: promise.splits)

lemma settle_pending_iff:
  "settle out = Pending \<longleftrightarrow> (\<exists>resp. out = Responded resp \<and> body resp = Stalled)"
proof (cases out)
  case (Responded resp)
  show ?thesis
  proof (cases "body resp")
    case (Parsed d)
    then show ?thesis
      using Responded settle_ok[OF Parsed] settle_not_ok[OF Parsed] by (cases "ok resp") auto
  next
    case (NotJson m)
    then show ?thesis using Responded by (simp add: settle_not_json)
  next
    case (ReadFailed m)
    then show ?thesis using Responded by (simp add: settle_read_failed)
  next
    case Stalled
    then show ?thesis using Responded by (simp add: settle_stalled)
  qed
next
  case (Aborted m)
  then show ?thesis by (simp add: settle_aborted)
next
  case (NetworkFailed m)
  then show ?thesis by (simp add: settle_network_failed)
qed

lemma settle_success_iff:
  "settle out = Resolved r \<Longrightarrow>
     success r \<longleftrightarrow> (\<exists>resp d. out = Responded resp \<and> ok resp \<and> body resp = Parsed d)"
proof (cases out)
  case (Responded resp)
  assume r: "settle out = Resolved r"
  show ?thesis
  proof (cases "body resp")
    case (Parsed d)
    then show ?thesis
      using r Responded settle_ok[OF Parsed] settle_not_ok[OF Parsed] by (cases "ok resp") auto
  next
    case (NotJson m)
    then show ?thesis using r Responded by (auto simp: settle_not_json)
  next
    case (ReadFailed m)
    then show ?thesis using r Responded by (auto simp: settle_read_failed)
  next
    case Stalled
    then show ?thesis using r Responded by (simp add: settle_stalled)
  qed
next
  case (Aborted m)
  assume "settle out = Resolved r"
  then show ?thesis using Aborted by (auto simp: settle_aborted)
next
  case (NetworkFailed m)
  assume "settle out = Resolved r"
  then show ?thesis using NetworkFailed by (auto simp: settle_network_failed)
qed

text \<open>
  Claim C10, amended. \<^verbatim>\<open>parseSections\<close>, \<^verbatim>\<open>filterLatex\<close>, \<^verbatim>\<open>compileLatex\<close> and
  \<^verbatim>\<open>preprocessLatex\<close> are \<^verbatim>\<open>apiRequest\<close> on the outcome of one \<^verbatim>\<open>fetch\<close>. Whatever that
  outcome is, the promise is never rejected, and it stays pending only when the body of
  the response never ends. Otherwise it resolves to an \<^verbatim>\<open>ApiResponse\<close>: with \<^verbatim>\<open>success\<close>
  true exactly when the HTTP response is ok and its body parses as JSON, the parsed body
  then being the data; with error type \<^verbatim>\<open>timeout_error\<close> when the timer aborted the
  fetch; with error type \<^verbatim>\<open>network_error\<close> when the fetch failed otherwise, and also when
  the body of a response is not JSON or cannot be read to its end.
\<close>

theorem api_wrappers_resolve:
  "(\<exists>req. parseSections fetch latexCode templateId = settle (fetch req))
   \<and> (\<exists>req. filterLatex fetch parsed sels = settle (fetch req))
   \<and> (\<exists>req. compileLatex fetch latexCode = settle (fetch req))
   \<and> (\<exists>req. preprocessLatex fetch latexCode = settle (fetch req))
   \<and> settle out \<noteq> Rejected e
   \<and> (settle out = Pending \<longleftrightarrow> (\<exists>resp. out = Responded resp \<and> body resp = Stalled))
   \<and> (\<forall>r. settle out = Resolved r \<longrightarrow>
         (success r \<longleftrightarrow> (\<exists>resp d. out = Responded resp \<and> ok resp \<and> body resp = Parsed d)))
   \<and> (\<forall>resp d. out = Responded resp \<and> ok resp \<and> body resp = Parsed d \<longrightarrow>
         settle out = Resolved \<lparr>success = True, data = Some d, api_error = None\<rparr>)
   \<and> (\<forall>m. out = Aborted m \<longrightarrow>
         (\<exists>r. settle out = Resolved r \<and> \<not> success r \<and> error_type r = Some ''timeout_error''))
   \<and> (\<forall>m. out = NetworkFailed m \<longrightarrow>
         (\<exists>r. settle out = Resolved r \<and> \<not> success r \<and> error_type r = Some ''network_error''))
   \<and> (\<forall>resp m. out = Responded resp \<and> (body resp = NotJson m \<or> body resp = ReadFailed m) \<longrightarrow>
         (\<exists>r. settle out = Resolved r \<and> \<not> success r \<and> error_type r = Some ''network_error''))"
proof -
  have wrappers:
    "\<exists>req. parseSections fetch latexCode templateId = settle (fetch req)"
    "\<exists>req. filterLatex fetch parsed sels = settle (fetch req)"
    "\<exists>req. compileLatex fetch latexCode = settle (fetch req)"
    "\<exists>req. preprocessLatex fetch latexCode = settle (fetch req)"
    unfolding parseSections_def filterLatex_def compileLatex_def preprocessLatex_def
      apiRequest_def
    by blast+
  have succ: "\<forall>r. settle out = Resolved r \<longrightarrow>
      (success r \<longleftrightarrow> (\<exists>resp d. out = Responded resp \<and> ok resp \<and> body resp = Parsed d))"
    using settle_success_iff by blast
  have okc: "\<forall>resp d. out = Responded resp \<and> ok resp \<and> body resp = Parsed d \<longrightarrow>
      settle out = Resolved \<lparr>success = True, data = Some d, api_error = None\<rparr>"
    by (auto simp: settle_ok)
  have ab: "\<forall>m. out = Aborted m \<longrightarrow>
      (\<exists>r. settle out = Resolved r \<and> \<not> success r \<and> error_type r = Some ''timeout_error'')"
    by (auto simp: settle_aborted)
  have nf: "\<forall>m. out = NetworkFailed m \<longrightarrow>
      (\<exists>r. settle out = Resolved r \<and> \<not> success r \<and> error_type r = Some ''network_error'')"
    by (auto simp: settle_network_failed)
  have bd: "\<forall>resp m. out = Responded resp \<and> (body resp = NotJson m \<or> body resp = ReadFailed m) \<longrightarrow>
      (\<exists>r. settle out = Resolved r \<and> \<not> success r \<and> error_type r = Some ''network_error'')"
    by (auto simp: settle_not_json settle_read_failed)
  show ?thesis
    using wrappers settle_never_rejected[of out e] settle_pending_iff[of out] succ okc ab nf bd
    by (intro conjI)
qed

theorem api_wrappers_resolve_witness:
  "compileLatex example_timeout_fetch ''x'' \<noteq> Pending
   \<and> (\<exists>r. compileLatex example_timeout_fetch ''x'' = Resolved r
        \<and> \<not> success r \<and> error_type r = Some ''timeout_error'')
   \<and> (\<exists>r. preprocessLatex example_offline_fetch ''x'' = Resolved r
        \<and> \<not> success r \<and> error_type r = Some ''network_error'')
   \<and> (\<exists>r. parseSections example_html_fetch ''x'' None = Resolved r
        \<and> \<not> success r \<and> error_type r = Some ''network_error'')
   \<and> filterLatex example_ok_fetch JNull JNull =
        Resolved \<lparr>success = True, data = Some (JObj [(''filteredLatex'', JStr ''x'')]),
                  api_error = None\<rparr>
   \<and> compileLatex example_stalled_fetch ''x'' = Pending"
proof -
  have 1: "compileLatex example_timeout_fetch ''x'' \<noteq> Pending
     \<and> (\<exists>r. compileLatex example_timeout_fetch ''x'' = Resolved r
        \<and> \<not> success r \<and> error_type r = Some ''timeout_error'')"
    using api_wrappers_resolve[where fetch = example_timeout_fetch and latexCode = "''x''"
        and out = "Aborted ''signal is aborted without reason''"]
    by (auto simp: example_timeout_fetch_def)
  have 2: "\<exists>r. preprocessLatex example_offline_fetch ''x'' = Resolved r
        \<and> \<not> success r \<and> error_type r = Some ''network_error''"
    using api_wrappers_resolve[where fetch = example_offline_fetch and latexCode = "''x''"
        and out = "NetworkFailed ''Failed to fetch''"]
    by (auto simp: example_offline_fetch_def)
  have 3: "\<exists>r. parseSections example_html_fetch ''x'' None = Resolved r
        \<and> \<not> success r \<and> error_type r = Some ''network_error''"
    using api_wrappers_resolve[where fetch = example_html_fetch and latexCode = "''x''"
        and templateId = None and out = "Responded example_html_response"]
    by (auto simp: example_html_fetch_def example_html_response_def)
  have 4: "filterLatex example_ok_fetch JNull JNull =
        Resolved \<lparr>success = True, data = Some (JObj [(''filteredLatex'', JStr ''x'')]),
                  api_error = None\<rparr>"
    using api_wrappers_resolve[where fetch = example_ok_fetch and parsed = JNull and sels = JNull
        and out = "Responded example_ok_response"]
    by (auto simp: example_ok_fetch_def example_ok_response_def)
  have 5: "compileLatex example_stalled_fetch ''x'' = Pending"
    using api_wrappers_resolve[where fetch = example_stalled_fetch and latexCode = "''x''"
        and out = "Responded example_stalled_response"]
    by (auto simp: example_stalled_fetch_def example_stalled_response_def)
  show ?thesis using 1 2 3 4 5 by blast
qed

text \<open>
  Claim C10 as stated fails twice. An HTTP response that is ok but whose body is not JSON
  makes \<^verbatim>\<open>response.json()\<close> throw inside the \<^verbatim>\<open>try\<close>, and the wrapper resolves to a
  \<^verbatim>\<open>network_error\<close> without \<^verbatim>\<open>success\<close>. And a response whose body never ends leaves the
  wrapper's promise pending, the abort timer having been cleared before the body is
  read.
\<close>

theorem ok_response_unparsable_counterexample:
  "ok example_html_response
   \<and> parseSections example_html_fetch ''x'' None =
       Resolved \<lparr>success = False, data = None,
            api_error = Some (JObj [(''type'', JStr ''network_error''),
              (''message'', JStr ''Network error: Unexpected token < in JSON at position 0'')])\<rparr>
   \<and> compileLatex example_stalled_fetch ''x'' = Pending"
  by (simp add: parseSections_def compileLatex_def apiRequest_def settle_def apiRequest_try_def
      await_fetch_def response_json_def apiRequest_catch_def example_html_fetch_def
      example_html_response_def example_stalled_fetch_def example_stalled_response_def
      failure_def mk_error_def)

end
